theory Spec2Isabelle
  imports Main "HOL-Library.AList"
begin

section \<open>Exceptions\<close>

text \<open>
  The Python exceptions the two source files can raise, as values. A function that can
  raise returns \<open>error + 'a\<close>, with \<open>Inl\<close> for the exception.
\<close>

datatype error =
    IndexError
  | AssertionError
  | AttributeError
  | KeyError
  | TypeError
  | ValueError
  | NotImplementedError

section \<open>Column names\<close>

text \<open>
  Modelled from the spec: the column-name constants of \<open>ray.rllib.policy.sample_batch\<close>
  (\<open>SampleBatch.OBS\<close>, \<open>SampleBatch.INFOS\<close>, ..., \<open>DEFAULT_POLICY_ID\<close>) and
  \<open>QF_PREDS\<close> of \<open>ray.rllib.algorithms.sac.sac_learner\<close> are imported by the two
  source files and are not part of them. They are the strings the specification uses
  for these columns.
\<close>

definition OBS :: string where "OBS = ''obs''"
definition NEXT_OBS :: string where "NEXT_OBS = ''new_obs''"
definition ACTIONS :: string where "ACTIONS = ''actions''"
definition INFOS :: string where "INFOS = ''infos''"
definition T :: string where "T = ''t''"
definition DEFAULT_POLICY_ID :: string where "DEFAULT_POLICY_ID = ''default_policy''"
definition QF_PREDS :: string where "QF_PREDS = ''qf_preds''"

text \<open>The constants \<open>dqn_rainbow_rl_module.py\<close> defines itself (lines 21 to 25).\<close>

definition ATOMS :: string where "ATOMS = ''atoms''"
definition QF_LOGITS :: string where "QF_LOGITS = ''qf_logits''"
definition QF_PROBS :: string where "QF_PROBS = ''qf_probs''"
definition QF_TARGET_NEXT_PREDS :: string where "QF_TARGET_NEXT_PREDS = ''qf_target_next_preds''"
definition QF_TARGET_NEXT_PROBS :: string where "QF_TARGET_NEXT_PROBS = ''qf_target_next_probs''"

section \<open>DQNRainbowRLModule\<close>

subsection \<open>Configuration, catalog and module state\<close>

text \<open>
  \<open>self.config.model_config_dict\<close>, restricted to the keys \<open>setup\<close> reads. Each field
  is what \<open>model_config_dict.get(key)\<close> returns: \<open>None\<close> when the key is absent (or
  holds Python's \<open>None\<close>), and a value of the type the source annotates otherwise
  (\<open>bool\<close>, \<open>bool\<close>, \<open>int\<close>, \<open>float\<close>, \<open>float\<close>). The floats \<open>v_min\<close>, \<open>v_max\<close>
  and the epsilon schedule are only stored, so their types are parameters.
\<close>

record ('f, 'e) model_config_dict =
  cfg_dueling :: "bool option"
  cfg_noisy :: "bool option"
  cfg_num_atoms :: "int option"
  cfg_v_min :: "'f option"
  cfg_v_max :: "'f option"
  cfg_epsilon :: "'e option"

text \<open>
  A network built by the catalog: its parameters (opaque) and the \<open>trainable\<close>
  attribute that \<open>setup\<close> assigns.
\<close>

record 'n network =
  params :: 'n
  trainable :: bool

text \<open>
  The \<open>DQNRainbowCatalog\<close> is not part of the sources: its four builders are taken as
  parameters. Each takes the framework and returns what it builds, a new network at
  each call.
\<close>

record ('fw, 'n, 'd) catalog =
  build_encoder :: "'fw \<Rightarrow> 'n network"
  build_af_head :: "'fw \<Rightarrow> 'n network"
  build_vf_head :: "'fw \<Rightarrow> 'n network"
  get_action_dist_cls :: "'fw \<Rightarrow> 'd"

text \<open>\<open>Scheduler(epsilon, framework=...)\<close>: the constructor call, kept as data.\<close>

datatype ('e, 'fw) scheduler = Scheduler 'e 'fw

text \<open>
  The attributes of the module after \<open>setup\<close>. An attribute that \<open>setup\<close> assigns only
  under a condition is an \<open>option\<close>: \<open>None\<close> means that the attribute does not exist.
  \<open>is_dueling\<close> and \<open>uses_noisy\<close> hold what \<open>.get\<close> returned (\<open>None\<close> is Python's
  \<open>None\<close>); \<open>v_min\<close> and \<open>v_max\<close> are \<open>Some\<close> of what \<open>.get\<close> returned when they are
  assigned.
\<close>

record ('fw, 'n, 'd, 'f, 'e) rl_module_state =
  framework :: 'fw
  is_dueling :: "bool option"
  uses_noisy :: "bool option"
  num_atoms :: int
  v_min :: "'f option option"
  v_max :: "'f option option"
  epsilon_schedule :: "('e, 'fw) scheduler option"
  encoder :: "'n network"
  target_encoder :: "'n network"
  af :: "'n network"
  vf :: "'n network option"
  af_target :: "'n network"
  vf_target :: "'n network option"
  action_dist_cls :: 'd

text \<open>Python's truth value of what \<open>.get\<close> returned for a boolean flag.\<close>

fun truthy :: "bool option \<Rightarrow> bool" where
  "truthy None = False"
| "truthy (Some b) = b"

subsection \<open>setup\<close>

text \<open>
  \<open>setup\<close> (lines 31 to 78), in the order of the source, under the name
  \<open>module_setup\<close> (\<open>setup\<close> is a keyword of Isabelle). \<open>self.num_atoms > 1\<close> raises
  \<open>TypeError\<close> when \<open>num_atoms\<close> is \<open>None\<close>; \<open>model_config_dict["epsilon"]\<close> raises
  \<open>KeyError\<close> when the key is absent, and is evaluated only when noisy layers are off.
  The three assignments of \<open>trainable\<close> (lines 71 to 74) are the record updates at the end.
  A primed name is the local value of the attribute of that name.
\<close>

definition module_setup ::
  "('fw, 'n, 'd) catalog \<Rightarrow> ('f, 'e) model_config_dict \<Rightarrow> 'fw
    \<Rightarrow> error + ('fw, 'n, 'd, 'f, 'e) rl_module_state" where
  "module_setup catalog cfg fw =
    (let is_dueling' = cfg_dueling cfg;
         uses_noisy' = cfg_noisy cfg
     in case cfg_num_atoms cfg of
          None \<Rightarrow> Inl TypeError
        | Some num_atoms' \<Rightarrow>
           (let v_min' = (if num_atoms' > 1 then Some (cfg_v_min cfg) else None);
                v_max' = (if num_atoms' > 1 then Some (cfg_v_max cfg) else None)
            in case (if \<not> truthy uses_noisy'
                     then (case cfg_epsilon cfg of
                             None \<Rightarrow> Inl KeyError
                           | Some eps \<Rightarrow> Inr (Some (Scheduler eps fw)))
                     else Inr None) of
                 Inl e \<Rightarrow> Inl e
               | Inr epsilon_schedule' \<Rightarrow>
                  (let encoder' = build_encoder catalog fw;
                       target_encoder' = build_encoder catalog fw;
                       af' = build_af_head catalog fw;
                       vf' = (if truthy is_dueling'
                              then Some (build_vf_head catalog fw) else None);
                       af_target' = build_af_head catalog fw;
                       vf_target' = (if truthy is_dueling'
                                     then Some (build_vf_head catalog fw) else None)
                   in Inr \<lparr> framework = fw,
                            is_dueling = is_dueling',
                            uses_noisy = uses_noisy',
                            num_atoms = num_atoms',
                            v_min = v_min',
                            v_max = v_max',
                            epsilon_schedule = epsilon_schedule',
                            encoder = encoder',
                            target_encoder = target_encoder'\<lparr>trainable := False\<rparr>,
                            af = af',
                            vf = vf',
                            af_target = af_target'\<lparr>trainable := False\<rparr>,
                            vf_target =
                              (if truthy is_dueling'
                               then map_option (\<lambda>n. n\<lparr>trainable := False\<rparr>) vf_target'
                               else vf_target'),
                            action_dist_cls = get_action_dist_cls catalog fw \<rparr>)))"

subsection \<open>The other operations of the module\<close>

text \<open>
  The methods of the class that have a body (lines 80 to 133). None of them assigns an
  attribute; each is a function of the module state. The four abstract methods
  (\<open>_qf\<close>, \<open>_qf_target\<close>, \<open>_af_dist\<close>, \<open>_qf_forward_helper\<close>) have no body in this
  class, and the methods that the class inherits are not part of the sources: neither
  are modelled.
\<close>

definition get_exploration_action_dist_cls ::
  "('fw, 'n, 'd, 'f, 'e) rl_module_state \<Rightarrow> 'd" where
  "get_exploration_action_dist_cls self = action_dist_cls self"

definition get_initial_state ::
  "('fw, 'n, 'd, 'f, 'e) rl_module_state \<Rightarrow> (string \<times> unit) list" where
  "get_initial_state self = []"

definition input_specs_exploration ::
  "('fw, 'n, 'd, 'f, 'e) rl_module_state \<Rightarrow> string list" where
  "input_specs_exploration self = [OBS, T]"

definition input_specs_inference ::
  "('fw, 'n, 'd, 'f, 'e) rl_module_state \<Rightarrow> string list" where
  "input_specs_inference self = [OBS]"

definition input_specs_train ::
  "('fw, 'n, 'd, 'f, 'e) rl_module_state \<Rightarrow> string list" where
  "input_specs_train self = [OBS, ACTIONS, NEXT_OBS]"

definition output_specs_exploration ::
  "('fw, 'n, 'd, 'f, 'e) rl_module_state \<Rightarrow> string list" where
  "output_specs_exploration self = [ACTIONS]"

definition output_specs_inference ::
  "('fw, 'n, 'd, 'f, 'e) rl_module_state \<Rightarrow> string list" where
  "output_specs_inference self = [ACTIONS]"

definition output_specs_train ::
  "('fw, 'n, 'd, 'f, 'e) rl_module_state \<Rightarrow> string list" where
  "output_specs_train self =
     [QF_PREDS, QF_TARGET_NEXT_PREDS]
     @ (if num_atoms self > 1 then [ATOMS, QF_LOGITS, QF_TARGET_NEXT_PROBS] else [])"

section \<open>BatchIndividualItems\<close>

subsection \<open>The data mapping\<close>

text \<open>
  A key of a Python \<open>dict\<close> inside the data: a string (a column name or a module id)
  or a 1-tuple \<open>(eps_id,)\<close> of an episode id. Episode ids are strings.
\<close>

datatype key = KStr string | KTup string

text \<open>
  A value in the data, under a column or under a key of a dict:
  \<^item> \<open>Items\<close>, a Python \<open>list\<close> of individual items;
  \<^item> \<open>Dict\<close>, a Python \<open>dict\<close>: the per-module dict \<open>[col] -> [list of items]\<close> of the
    multi-agent case, the per-episode dict \<open>[(eps_id,)] -> [list of items]\<close> of the
    single-agent case, and also the batch of a list of items that are dicts;
  \<^item> \<open>Batched\<close>, any other value: a batch that is neither a dict nor a list, which is
    an array or a tuple of arrays.
  The types of items and of such batches are parameters. A \<open>dict\<close> is an association
  list in insertion order, with distinct keys: \<open>map_of\<close> reads it, \<open>AList.update\<close>
  assigns to a key (in place when the key exists, at the end otherwise, as Python does)
  and \<open>AList.delete\<close> removes a key.
\<close>

datatype ('i, 'b) val =
    Items "'i list"
  | Batched 'b
  | Dict "(key \<times> ('i, 'b) val) list"

type_synonym ('i, 'b) data = "(string \<times> ('i, 'b) val) list"

text \<open>
  The dict of the single-agent case, written from its entries in key order: it maps the
  key \<open>(eps_id,)\<close> of each episode to the list of the items of that episode.
\<close>

definition eps_dict :: "(string \<times> 'i list) list \<Rightarrow> ('i, 'b) val" where
  "eps_dict per_episode = Dict (map (\<lambda>(eps_id, xs). (KTup eps_id, Items xs)) per_episode)"

text \<open>
  \<open>rl_module\<close>: a plain \<open>RLModule\<close>, or a \<open>MultiAgentRLModule\<close> with the ids of its
  modules. \<open>episodes\<close>: only the class of an episode is read.
\<close>

datatype rl_module = RLModule | MultiAgentRLModule "string list"

datatype episode = SingleAgentEpisode | MultiAgentEpisode

text \<open>
  \<open>shared_data\<close>: a \<open>dict\<close> from strings to values, of which the connector writes the
  list of episode ids under \<open>"memorized_map_structure"\<close>; or \<open>None\<close>, the default of
  the parameter.
\<close>

datatype 's shared_val = Map_structure "string list" | Other 's

type_synonym 's shared_data = "(string \<rightharpoonup> 's shared_val) option"

text \<open>
  The library functions that are not part of the sources, as parameters:
  \<^item> \<open>batch\<close> of \<open>ray.rllib.utils.spaces.space_utils\<close>, which may raise, and which
    returns a structure like the items of its list: a dict for items that are dicts, a
    list for items that are lists, an array or a tuple otherwise;
  \<^item> \<open>iterate\<close>: the items that \<open>for item in ...\<close> gives on a value that is not a list
    (the rows of an array, the keys of a dict), or the exception it raises;
  \<^item> \<open>assign_error\<close>: the exception that assigning under a string raises on a batch
    that is neither a dict nor a list (\<open>IndexError\<close> on an array, \<open>TypeError\<close> on a
    tuple).
\<close>

record ('i, 'b) tensor_lib =
  batch :: "'i list \<Rightarrow> error + ('i, 'b) val"
  iterate :: "('i, 'b) val \<Rightarrow> error + 'i list"
  assign_error :: "'b \<Rightarrow> error"

subsection \<open>The loop body\<close>

text \<open>\<open>isinstance(rl_module, MultiAgentRLModule)\<close> (line 26).\<close>

fun is_marl_module :: "rl_module \<Rightarrow> bool" where
  "is_marl_module RLModule = False"
| "is_marl_module (MultiAgentRLModule ids) = True"

text \<open>\<open>is_marl_module and column in rl_module\<close> (line 34).\<close>

fun in_marl_module :: "rl_module \<Rightarrow> string \<Rightarrow> bool" where
  "in_marl_module RLModule column = False"
| "in_marl_module (MultiAgentRLModule ids) column = (column \<in> set ids)"

text \<open>
  Lines 37 to 39: the loop over a copy of the module's dict, assigning to the dict itself.
  The first argument is what remains of the copy.
\<close>

fun batch_module_data ::
  "('i, 'b) tensor_lib \<Rightarrow> (key \<times> ('i, 'b) val) list \<Rightarrow> (key \<times> ('i, 'b) val) list
    \<Rightarrow> error + (key \<times> ('i, 'b) val) list" where
  "batch_module_data lib [] module_data = Inr module_data"
| "batch_module_data lib ((col, Items col_data) # rest) module_data =
     (if col \<noteq> KStr INFOS
      then (case batch lib col_data of
              Inl e \<Rightarrow> Inl e
            | Inr v \<Rightarrow> batch_module_data lib rest (AList.update col v module_data))
      else batch_module_data lib rest module_data)"
| "batch_module_data lib ((col, Batched b) # rest) module_data =
     batch_module_data lib rest module_data"
| "batch_module_data lib ((col, Dict d) # rest) module_data =
     batch_module_data lib rest module_data"

text \<open>
  The target \<open>(eps_id,)\<close> of the loop of line 53 unpacks a key: a 1-tuple gives its
  component; a string is a sequence of its characters, so a string of one character
  gives that string, and any other string raises \<open>ValueError\<close>.
\<close>

fun unpack_eps_id :: "key \<Rightarrow> error + string" where
  "unpack_eps_id (KTup eps_id) = Inr eps_id"
| "unpack_eps_id (KStr s) = (if length s = 1 then Inr s else Inl ValueError)"

text \<open>\<open>for item in ...\<close> over what stands under a key.\<close>

fun items_of :: "('i, 'b) tensor_lib \<Rightarrow> ('i, 'b) val \<Rightarrow> error + 'i list" where
  "items_of lib (Items xs) = Inr xs"
| "items_of lib (Batched b) = iterate lib (Batched b)"
| "items_of lib (Dict d) = iterate lib (Dict d)"

text \<open>
  Lines 54 to 58, the inner loop over the items of one episode. The state is the pair
  of \<open>memorized_map_structure\<close> and \<open>list_to_be_batched\<close>.
\<close>

fun append_items ::
  "string \<Rightarrow> string \<Rightarrow> 'i list \<Rightarrow> string list \<times> 'i list \<Rightarrow> string list \<times> 'i list" where
  "append_items column eps_id [] acc = acc"
| "append_items column eps_id (item # items) (memorized_map_structure, list_to_be_batched) =
     append_items column eps_id items
       (if column = OBS then memorized_map_structure @ [eps_id] else memorized_map_structure,
        list_to_be_batched @ [item])"

text \<open>
  Lines 53 to 58, the loop over the keys of \<open>column_data\<close>. \<open>column_data[(eps_id,)]\<close>
  raises \<open>KeyError\<close> when the dict has no such key.
\<close>

fun collect_items ::
  "('i, 'b) tensor_lib \<Rightarrow> string \<Rightarrow> (key \<times> ('i, 'b) val) list \<Rightarrow> key list
    \<Rightarrow> string list \<times> 'i list \<Rightarrow> error + string list \<times> 'i list" where
  "collect_items lib column column_data [] acc = Inr acc"
| "collect_items lib column column_data (k # ks) acc =
     (case unpack_eps_id k of
        Inl e \<Rightarrow> Inl e
      | Inr eps_id \<Rightarrow>
         (case map_of column_data (KTup eps_id) of
            None \<Rightarrow> Inl KeyError
          | Some v \<Rightarrow>
             (case items_of lib v of
                Inl e \<Rightarrow> Inl e
              | Inr items \<Rightarrow>
                  collect_items lib column column_data ks
                    (append_items column eps_id items acc))))"

text \<open>
  Lines 66 to 68, after \<open>data[column]\<close> has been assigned \<open>new\<close>. The right-hand side
  \<open>data.pop(column)\<close> is evaluated before the target \<open>data[DEFAULT_POLICY_ID]\<close>, which
  raises \<open>KeyError\<close> when \<open>column\<close> is \<open>DEFAULT_POLICY_ID\<close> itself. What stands under
  \<open>DEFAULT_POLICY_ID\<close> then takes the item: a dict does, and this includes the batch of
  a list whose items are dicts; a list raises \<open>TypeError\<close> on a string index; an array
  or a tuple raises what the library says.
\<close>

definition move_to_default_policy ::
  "('i, 'b) tensor_lib \<Rightarrow> string \<Rightarrow> ('i, 'b) val \<Rightarrow> ('i, 'b) data
    \<Rightarrow> error + ('i, 'b) data" where
  "move_to_default_policy lib column new data =
     (let data1 = (if map_of data DEFAULT_POLICY_ID = None
                   then AList.update DEFAULT_POLICY_ID (Dict []) data else data);
          data2 = AList.delete column data1
      in case map_of data2 DEFAULT_POLICY_ID of
           None \<Rightarrow> Inl KeyError
         | Some (Items xs) \<Rightarrow> Inl TypeError
         | Some (Batched b) \<Rightarrow> Inl (assign_error lib b)
         | Some (Dict d) \<Rightarrow>
             Inr (AList.update DEFAULT_POLICY_ID (Dict (AList.update (KStr column) new d)) data2))"

text \<open>
  Lines 49 to 72, the single-agent case. \<open>column_data.keys()\<close> raises \<open>AttributeError\<close>
  on a list, an array or a tuple. The assignment to \<open>shared_data\<close> raises \<open>TypeError\<close>
  when \<open>shared_data\<close> is \<open>None\<close>.
\<close>

definition single_agent_column ::
  "('i, 'b) tensor_lib \<Rightarrow> rl_module \<Rightarrow> string \<Rightarrow> ('i, 'b) val
    \<Rightarrow> ('i, 'b) data \<times> 's shared_data \<Rightarrow> error + ('i, 'b) data \<times> 's shared_data" where
  "single_agent_column lib rl_module column column_data st =
     (case column_data of
        Items xs \<Rightarrow> Inl AttributeError
      | Batched b \<Rightarrow> Inl AttributeError
      | Dict d \<Rightarrow>
         (case collect_items lib column d (map fst d) ([], []) of
            Inl e \<Rightarrow> Inl e
          | Inr (memorized_map_structure, list_to_be_batched) \<Rightarrow>
             (case (if column = INFOS then Inr (Items list_to_be_batched)
                    else batch lib list_to_be_batched) of
                Inl e \<Rightarrow> Inl e
              | Inr new \<Rightarrow>
                 (case (if is_marl_module rl_module
                        then move_to_default_policy lib column new
                               (AList.update column new (fst st))
                        else Inr (AList.update column new (fst st))) of
                    Inl e \<Rightarrow> Inl e
                  | Inr data' \<Rightarrow>
                     (if column = OBS
                      then (case snd st of
                              None \<Rightarrow> Inl TypeError
                            | Some shared \<Rightarrow>
                                Inr (data',
                                     Some (shared(''memorized_map_structure'' \<mapsto>
                                             Map_structure memorized_map_structure))))
                      else Inr (data', snd st))))))"

text \<open>
  Lines 29 to 79, the body of the loop for one column, on the state \<open>(data, shared_data)\<close>.
  \<open>data.copy()\<close> is a shallow copy: \<open>column_data\<close> is the object that \<open>data\<close> holds
  under \<open>column\<close>, and an earlier iteration changes an object that stands under a later
  column only in place (line 68), so the body reads \<open>column_data\<close> from the current
  \<open>data\<close>. A column is removed from \<open>data\<close> only in its own iteration, so it is there
  when its iteration starts; the model gives \<open>KeyError\<close> otherwise. \<open>.copy().items()\<close>
  on a list, an array or a tuple raises \<open>AttributeError\<close> (line 37).
\<close>

definition process_column ::
  "('i, 'b) tensor_lib \<Rightarrow> rl_module \<Rightarrow> bool \<Rightarrow> string
    \<Rightarrow> ('i, 'b) data \<times> 's shared_data \<Rightarrow> error + ('i, 'b) data \<times> 's shared_data" where
  "process_column lib rl_module is_multi_agent column st =
     (case map_of (fst st) column of
        None \<Rightarrow> Inl KeyError
      | Some column_data \<Rightarrow>
         (if in_marl_module rl_module column
          then (if \<not> is_multi_agent then Inl AssertionError
                else (case column_data of
                        Items xs \<Rightarrow> Inl AttributeError
                      | Batched b \<Rightarrow> Inl AttributeError
                      | Dict module_data \<Rightarrow>
                         (case batch_module_data lib module_data module_data of
                            Inl e \<Rightarrow> Inl e
                          | Inr module_data' \<Rightarrow>
                              Inr (AList.update column (Dict module_data') (fst st), snd st))))
          else (case column_data of
                  Items xs \<Rightarrow>
                    (case batch lib xs of
                       Inl e \<Rightarrow> Inl e
                     | Inr v \<Rightarrow> Inr (AList.update column v (fst st), snd st))
                | _ \<Rightarrow>
                    (if \<not> is_multi_agent
                     then single_agent_column lib rl_module column column_data st
                     else Inl NotImplementedError))))"

subsection \<open>The call\<close>

text \<open>The loop of line 29 over the columns of the copy, stopping at the first exception.\<close>

fun process_columns ::
  "('i, 'b) tensor_lib \<Rightarrow> rl_module \<Rightarrow> bool \<Rightarrow> string list
    \<Rightarrow> ('i, 'b) data \<times> 's shared_data \<Rightarrow> error + ('i, 'b) data \<times> 's shared_data" where
  "process_columns lib rl_module is_multi_agent [] st = Inr st"
| "process_columns lib rl_module is_multi_agent (column # columns) st =
     (case process_column lib rl_module is_multi_agent column st of
        Inl e \<Rightarrow> Inl e
      | Inr st' \<Rightarrow> process_columns lib rl_module is_multi_agent columns st')"

text \<open>
  \<open>BatchIndividualItems.__call__\<close>: it returns \<open>data\<close>, and \<open>shared_data\<close> is returned
  with it, since the call changes it in place. \<open>episodes[0]\<close> raises \<open>IndexError\<close> on an
  empty list, and \<open>data.copy()\<close> raises \<open>AttributeError\<close> when \<open>data\<close> is \<open>None\<close>.
\<close>

definition call ::
  "('i, 'b) tensor_lib \<Rightarrow> rl_module \<Rightarrow> ('i, 'b) data option \<Rightarrow> episode list
    \<Rightarrow> 's shared_data \<Rightarrow> error + ('i, 'b) data \<times> 's shared_data" where
  "call lib rl_module data episodes shared_data =
     (case episodes of
        [] \<Rightarrow> Inl IndexError
      | ep # _ \<Rightarrow>
         (let is_multi_agent = (ep = MultiAgentEpisode)
          in case data of
               None \<Rightarrow> Inl AttributeError
             | Some d \<Rightarrow>
                 process_columns lib rl_module is_multi_agent (map fst d) (d, shared_data)))"

section \<open>Example inputs\<close>

text \<open>
  A catalog whose builders return networks that are trainable, and a configuration
  with the dueling flag, the noisy flag and the number of atoms as given.
\<close>

definition example_catalog :: "(unit, nat, nat) catalog" where
  "example_catalog =
     \<lparr> build_encoder = (\<lambda>_. \<lparr>params = 1, trainable = True\<rparr>),
       build_af_head = (\<lambda>_. \<lparr>params = 2, trainable = True\<rparr>),
       build_vf_head = (\<lambda>_. \<lparr>params = 3, trainable = True\<rparr>),
       get_action_dist_cls = (\<lambda>_. 4) \<rparr>"

definition example_config :: "bool \<Rightarrow> bool \<Rightarrow> int \<Rightarrow> (int, nat) model_config_dict" where
  "example_config d n k =
     \<lparr> cfg_dueling = Some d, cfg_noisy = Some n, cfg_num_atoms = Some k,
       cfg_v_min = Some (-10), cfg_v_max = Some 10, cfg_epsilon = Some 7 \<rparr>"

text \<open>
  Two libraries on numbers as items. In the first, the items are plain numbers: the
  batch of a list is an array, written as the list itself; \<open>batch\<close> raises on the empty
  list; iterating over an array gives its rows. In the second, every item is a dict
  with the one key \<open>"a"\<close>, written as the number under that key: the batch of a list is
  a dict with the array of these numbers under \<open>"a"\<close>. Iterating over a dict is not
  used by the examples.
\<close>

definition example_lib :: "(nat, nat list) tensor_lib" where
  "example_lib =
     \<lparr> batch = (\<lambda>xs. if xs = [] then Inl ValueError else Inr (Batched xs)),
       iterate = (\<lambda>v. case v of Batched b \<Rightarrow> Inr b | _ \<Rightarrow> Inr []),
       assign_error = (\<lambda>b. IndexError) \<rparr>"


text \<open>
  Single-agent data: a column that holds a list, and the observations and infos of two
  episodes. Multi-agent data after the mapping of agents to modules: the columns of two
  modules.
\<close>

definition example_data :: "(nat, nat list) data" where
  "example_data =
     [(''rewards'', (Items [5, 6])),
      (''obs'', eps_dict [(''e1'', [1, 2]), (''e2'', [3])]),
      (''infos'', eps_dict [(''e1'', [7, 8]), (''e2'', [9])])]"

definition example_module_data :: "(nat, nat list) data" where
  "example_module_data =
     [(''m1'', Dict [(KStr ''obs'', Items [1, 2]), (KStr ''infos'', Items [3, 4])]),
      (''m2'', Dict [(KStr ''obs'', Items [5])])]"

section \<open>Properties of DQNRainbowRLModule\<close>

subsection \<open>When setup returns, and what it returns\<close>

lemma module_setup_returns:
  "(\<exists>self. module_setup catalog cfg fw = Inr self) \<longleftrightarrow>
     cfg_num_atoms cfg \<noteq> None \<and> (truthy (cfg_noisy cfg) \<or> cfg_epsilon cfg \<noteq> None)"
  by (auto simp: module_setup_def Let_def split: option.splits)

lemma module_setup_Inr:
  assumes "module_setup catalog cfg fw = Inr self"
  obtains n where "cfg_num_atoms cfg = Some n"
    and "self = \<lparr> framework = fw,
                  is_dueling = cfg_dueling cfg,
                  uses_noisy = cfg_noisy cfg,
                  num_atoms = n,
                  v_min = (if n > 1 then Some (cfg_v_min cfg) else None),
                  v_max = (if n > 1 then Some (cfg_v_max cfg) else None),
                  epsilon_schedule =
                    (if truthy (cfg_noisy cfg) then None
                     else map_option (\<lambda>eps. Scheduler eps fw) (cfg_epsilon cfg)),
                  encoder = build_encoder catalog fw,
                  target_encoder = (build_encoder catalog fw)\<lparr>trainable := False\<rparr>,
                  af = build_af_head catalog fw,
                  vf = (if truthy (cfg_dueling cfg) then Some (build_vf_head catalog fw) else None),
                  af_target = (build_af_head catalog fw)\<lparr>trainable := False\<rparr>,
                  vf_target = (if truthy (cfg_dueling cfg)
                               then Some ((build_vf_head catalog fw)\<lparr>trainable := False\<rparr>)
                               else None),
                  action_dist_cls = get_action_dist_cls catalog fw \<rparr>"
    and "truthy (cfg_noisy cfg) \<or> cfg_epsilon cfg \<noteq> None"
  using assms
  by (auto simp: module_setup_def Let_def split: option.splits if_splits)

lemma example_setup_returns:
  "\<exists>self. module_setup example_catalog (example_config d n k) () = Inr self"
  by (simp add: module_setup_returns example_config_def)

lemma truthy_iff: "truthy f \<longleftrightarrow> f = Some True"
  by (cases f) auto

subsection \<open>The training output spec\<close>

text \<open>
  C2. The training output spec contains each of the distributional keys \<open>"atoms"\<close>,
  \<open>"qf_logits"\<close> and \<open>"qf_target_next_probs"\<close> if and only if \<open>num_atoms > 1\<close>,
  and it contains \<open>"qf_preds"\<close> and \<open>"qf_target_next_preds"\<close> for every module state.
\<close>

theorem output_specs_train_keys:
  "(''atoms'' \<in> set (output_specs_train self) \<longleftrightarrow> 1 < num_atoms self)
   \<and> (''qf_logits'' \<in> set (output_specs_train self) \<longleftrightarrow> 1 < num_atoms self)
   \<and> (''qf_target_next_probs'' \<in> set (output_specs_train self) \<longleftrightarrow> 1 < num_atoms self)
   \<and> ''qf_preds'' \<in> set (output_specs_train self)
   \<and> ''qf_target_next_preds'' \<in> set (output_specs_train self)"
  by (simp add: output_specs_train_def QF_PREDS_def QF_TARGET_NEXT_PREDS_def ATOMS_def
      QF_LOGITS_def QF_TARGET_NEXT_PROBS_def)

theorem output_specs_train_keys_witness:
  "(\<exists>self. module_setup example_catalog (example_config False False 51) () = Inr self
      \<and> ''atoms'' \<in> set (output_specs_train self)
      \<and> ''qf_logits'' \<in> set (output_specs_train self)
      \<and> ''qf_target_next_probs'' \<in> set (output_specs_train self)
      \<and> ''qf_preds'' \<in> set (output_specs_train self)
      \<and> ''qf_target_next_preds'' \<in> set (output_specs_train self))
   \<and> (\<exists>self. module_setup example_catalog (example_config False False 1) () = Inr self
      \<and> ''atoms'' \<notin> set (output_specs_train self)
      \<and> ''qf_logits'' \<notin> set (output_specs_train self)
      \<and> ''qf_target_next_probs'' \<notin> set (output_specs_train self)
      \<and> ''qf_preds'' \<in> set (output_specs_train self)
      \<and> ''qf_target_next_preds'' \<in> set (output_specs_train self))"
proof -
  obtain s1 where s1: "module_setup example_catalog (example_config False False 51) () = Inr s1"
    using example_setup_returns by blast
  obtain s2 where s2: "module_setup example_catalog (example_config False False 1) () = Inr s2"
    using example_setup_returns by blast
  have n: "num_atoms s1 = 51" "num_atoms s2 = 1"
    using s1 s2 by (auto simp: module_setup_def Let_def example_config_def)
  from output_specs_train_keys [of s1] output_specs_train_keys [of s2] n s1 s2
  show ?thesis by simp
qed

subsection \<open>The heads and the target networks\<close>

text \<open>
  C4. When \<open>setup\<close> returns, the value head \<open>vf\<close> and the target value head
  \<open>vf_target\<close> exist if and only if the dueling flag of the model config is \<open>True\<close>,
  and they are then what \<open>build_vf_head\<close> builds; the advantage head \<open>af\<close> and its
  target copy \<open>af_target\<close> are what \<open>build_af_head\<close> builds, whatever the
  configuration.
\<close>

theorem setup_value_heads:
  assumes "module_setup catalog cfg fw = Inr self"
  shows "(vf self \<noteq> None \<longleftrightarrow> cfg_dueling cfg = Some True)
       \<and> (vf_target self \<noteq> None \<longleftrightarrow> cfg_dueling cfg = Some True)
       \<and> (cfg_dueling cfg = Some True \<longrightarrow>
            vf self = Some (build_vf_head catalog fw)
          \<and> vf_target self = Some ((build_vf_head catalog fw)\<lparr>trainable := False\<rparr>))
       \<and> af self = build_af_head catalog fw
       \<and> af_target self = (build_af_head catalog fw)\<lparr>trainable := False\<rparr>"
  using assms by (elim module_setup_Inr) (simp add: truthy_iff)

theorem setup_value_heads_witness:
  "\<exists>self. module_setup example_catalog (example_config True False 51) () = Inr self
     \<and> vf self = Some \<lparr>params = 3, trainable = True\<rparr>
     \<and> vf_target self = Some \<lparr>params = 3, trainable = False\<rparr>
     \<and> af self = \<lparr>params = 2, trainable = True\<rparr>
     \<and> af_target self = \<lparr>params = 2, trainable = False\<rparr>"
proof -
  obtain self where s: "module_setup example_catalog (example_config True False 51) () = Inr self"
    using example_setup_returns by blast
  from setup_value_heads [OF s] s show ?thesis
    by (simp add: example_catalog_def example_config_def)
qed

text \<open>
  C5. When \<open>setup\<close> returns, every component of the main network has a target copy
  built by the same builder: the target encoder and the target advantage head for every
  configuration, and the target value head exactly when the main network has a value
  head, which is when the dueling flag is set.
\<close>

theorem setup_target_copies:
  assumes "module_setup catalog cfg fw = Inr self"
  shows "encoder self = build_encoder catalog fw
       \<and> target_encoder self = (build_encoder catalog fw)\<lparr>trainable := False\<rparr>
       \<and> af self = build_af_head catalog fw
       \<and> af_target self = (build_af_head catalog fw)\<lparr>trainable := False\<rparr>
       \<and> (vf_target self \<noteq> None \<longleftrightarrow> vf self \<noteq> None)
       \<and> (vf self \<noteq> None \<longleftrightarrow> truthy (cfg_dueling cfg))
       \<and> vf_target self = map_option (\<lambda>n. n\<lparr>trainable := False\<rparr>) (vf self)"
  using assms by (elim module_setup_Inr) simp

theorem setup_target_copies_witness:
  "(\<exists>self. module_setup example_catalog (example_config True True 1) () = Inr self
      \<and> encoder self = \<lparr>params = 1, trainable = True\<rparr>
      \<and> target_encoder self = \<lparr>params = 1, trainable = False\<rparr>
      \<and> af_target self = \<lparr>params = 2, trainable = False\<rparr>
      \<and> vf self = Some \<lparr>params = 3, trainable = True\<rparr>
      \<and> vf_target self = Some \<lparr>params = 3, trainable = False\<rparr>)
   \<and> (\<exists>self. module_setup example_catalog (example_config False True 1) () = Inr self
      \<and> target_encoder self = \<lparr>params = 1, trainable = False\<rparr>
      \<and> af_target self = \<lparr>params = 2, trainable = False\<rparr>
      \<and> vf self = None \<and> vf_target self = None)"
proof -
  obtain s1 where s1: "module_setup example_catalog (example_config True True 1) () = Inr s1"
    using example_setup_returns by blast
  obtain s2 where s2: "module_setup example_catalog (example_config False True 1) () = Inr s2"
    using example_setup_returns by blast
  have "vf s1 = Some \<lparr>params = 3, trainable = True\<rparr>" "vf s2 = None"
    using s1 s2 by (auto simp: module_setup_def Let_def example_config_def example_catalog_def)
  with setup_target_copies [OF s1] setup_target_copies [OF s2] s1 s2 show ?thesis
    by (simp add: example_catalog_def example_config_def)
qed

subsection \<open>The exploration scheduler\<close>

text \<open>
  C6. When \<open>setup\<close> returns, the attribute \<open>epsilon_schedule\<close> exists if and only if
  the noisy flag of the model config is not set, and it is then the scheduler made from
  the \<open>"epsilon"\<close> entry of the config.
\<close>

theorem setup_epsilon_schedule:
  assumes "module_setup catalog cfg fw = Inr self"
  shows "(epsilon_schedule self \<noteq> None \<longleftrightarrow> \<not> truthy (cfg_noisy cfg))
       \<and> (\<not> truthy (cfg_noisy cfg) \<longrightarrow>
            (\<exists>eps. cfg_epsilon cfg = Some eps \<and> epsilon_schedule self = Some (Scheduler eps fw)))"
  using assms by (elim module_setup_Inr) auto

theorem setup_epsilon_schedule_witness:
  "(\<exists>self. module_setup example_catalog (example_config True False 1) () = Inr self
      \<and> epsilon_schedule self = Some (Scheduler 7 ()))
   \<and> (\<exists>self. module_setup example_catalog (example_config True True 1) () = Inr self
      \<and> epsilon_schedule self = None)"
proof -
  obtain s1 where s1: "module_setup example_catalog (example_config True False 1) () = Inr s1"
    using example_setup_returns by blast
  obtain s2 where s2: "module_setup example_catalog (example_config True True 1) () = Inr s2"
    using example_setup_returns by blast
  from setup_epsilon_schedule [OF s1] setup_epsilon_schedule [OF s2] s1 s2 show ?thesis
    by (auto simp: example_config_def)
qed

section \<open>Properties of BatchIndividualItems\<close>

text \<open>
  The theorems are about calls that return, \<open>call ... = Inr (data', shared_data')\<close>,
  on a \<open>data\<close> that is a dict: \<open>distinct (map fst data)\<close> says that no column occurs
  twice. \<open>map_of data column\<close> is \<open>data[column]\<close>, and \<open>None\<close> when \<open>data\<close> has no
  such column.
\<close>

subsection \<open>What one iteration of the loop does\<close>

lemma append_items_eq:
  "append_items column eps_id items acc =
     (if column = OBS then fst acc @ replicate (length items) eps_id else fst acc,
      snd acc @ items)"
proof (induction items arbitrary: acc)
  case Nil
  then show ?case by simp
next
  case (Cons item items)
  show ?case
    by (cases acc) (simp add: Cons.IH replicate_append_same)
qed

lemma move_to_default_policy_cases:
  assumes "move_to_default_policy lib column new data = Inr data'"
  obtains d0 where "column \<noteq> DEFAULT_POLICY_ID"
    and "map_of data DEFAULT_POLICY_ID = Some (Dict d0) \<or> map_of data DEFAULT_POLICY_ID = None \<and> d0 = []"
    and "map_of data' = (map_of data)(column := None,
           DEFAULT_POLICY_ID \<mapsto> Dict (AList.update (KStr column) new d0))"
  using assms unfolding move_to_default_policy_def Let_def
  by (auto simp: update_conv' delete_conv' split: option.splits val.splits if_splits)

lemma single_agent_column_cases:
  assumes "single_agent_column lib rl column column_data (data, sd) = Inr (data', sd')"
  obtains d mms ltb new where "column_data = Dict d"
    and "collect_items lib column d (map fst d) ([], []) = Inr (mms, ltb)"
    and "if column = INFOS then new = Items ltb else batch lib ltb = Inr new"
    and "if is_marl_module rl
         then move_to_default_policy lib column new (AList.update column new data) = Inr data'
         else data' = AList.update column new data"
    and "if column = OBS
         then \<exists>m. sd = Some m \<and> sd' = Some (m(''memorized_map_structure'' \<mapsto> Map_structure mms))
         else sd' = sd"
  using assms unfolding single_agent_column_def
  by (auto split: val.splits sum.splits prod.splits if_splits option.splits)

lemma process_column_cases:
  assumes "process_column lib rl ima c (data, sd) = Inr st'"
  obtains (module_column) md md' where "in_marl_module rl c" "ima"
      "map_of data c = Some (Dict md)" "batch_module_data lib md md = Inr md'"
      "st' = (AList.update c (Dict md') data, sd)"
  | (list_column) xs v where "\<not> in_marl_module rl c" "map_of data c = Some (Items xs)"
      "batch lib xs = Inr v" "st' = (AList.update c v data, sd)"
  | (single_agent) d where "\<not> in_marl_module rl c" "\<not> ima" "map_of data c = Some (Dict d)"
      "single_agent_column lib rl c (Dict d) (data, sd) = Inr st'"
  using assms unfolding process_column_def
  by (auto simp: single_agent_column_def split: option.splits if_splits val.splits sum.splits)


lemma process_column_other:
  assumes "process_column lib rl ima c' st = Inr st'"
    and "c \<noteq> c'"
    and "c \<noteq> DEFAULT_POLICY_ID \<or> \<not> is_marl_module rl \<or> ima"
  shows "map_of (fst st') c = map_of (fst st) c"
proof -
  obtain data sd where st: "st = (data, sd)" by (cases st)
  from assms(1) [unfolded st] show ?thesis
  proof (cases rule: process_column_cases)
    case (module_column md md')
    with assms(2) st show ?thesis by (simp add: update_conv')
  next
    case (list_column xs b)
    with assms(2) st show ?thesis by (simp add: update_conv')
  next
    case (single_agent d)
    obtain data' sd' where st': "st' = (data', sd')" by (cases st')
    from single_agent(4) [unfolded st'] show ?thesis
    proof (cases rule: single_agent_column_cases)
      case (1 d1 mms ltb new)
      show ?thesis
      proof (cases "is_marl_module rl")
        case True
        with 1(4) have "move_to_default_policy lib c' new (AList.update c' new data) = Inr data'"
          by simp
        then show ?thesis
        proof (cases rule: move_to_default_policy_cases)
          case (1 d0)
          with assms(2,3) True single_agent(2) st st' show ?thesis
            by (auto simp: update_conv')
        qed
      next
        case False
        with 1(4) assms(2) st st' show ?thesis by (simp add: update_conv')
      qed
    qed
  qed
qed

lemma process_column_shared_data:
  assumes "process_column lib rl ima c st = Inr st'" and "c \<noteq> OBS"
  shows "snd st' = snd st"
proof -
  obtain data sd where st: "st = (data, sd)" by (cases st)
  from assms(1) [unfolded st] show ?thesis
  proof (cases rule: process_column_cases)
    case (module_column md md')
    with st show ?thesis by simp
  next
    case (list_column xs b)
    with st show ?thesis by simp
  next
    case (single_agent d)
    obtain data' sd' where st': "st' = (data', sd')" by (cases st')
    from single_agent(4) [unfolded st'] assms(2) st st' show ?thesis
      by (cases rule: single_agent_column_cases) simp
  qed
qed

subsection \<open>The loop: splitting it at a column, and invariants\<close>

lemma process_columns_append:
  "process_columns lib rl ima (xs @ ys) st =
     (case process_columns lib rl ima xs st of
        Inl e \<Rightarrow> Inl e
      | Inr st1 \<Rightarrow> process_columns lib rl ima ys st1)"
  by (induction xs arbitrary: st) (simp_all split: sum.splits)

lemma process_columns_invariant:
  assumes "process_columns lib rl ima cols st = Inr st'"
    and "I st"
    and "\<And>c s s'. c \<in> set cols \<Longrightarrow> I s \<Longrightarrow> process_column lib rl ima c s = Inr s' \<Longrightarrow> I s'"
  shows "I st'"
  using assms
proof (induction cols arbitrary: st)
  case Nil
  then show ?case by simp
next
  case (Cons c cols)
  from Cons.prems(1) obtain s1 where s1: "process_column lib rl ima c st = Inr s1"
    and rest: "process_columns lib rl ima cols s1 = Inr st'"
    by (auto split: sum.splits)
  have "I s1" using Cons.prems(3) [of c st s1] Cons.prems(2) s1 by simp
  moreover have "I s'" if "c' \<in> set cols" "I s" "process_column lib rl ima c' s = Inr s'"
    for c' s s'
    using Cons.prems(3) [of c' s s'] that by simp
  ultimately show ?case using rest by (intro Cons.IH [of s1])
qed

lemma process_columns_at:
  assumes "process_columns lib rl ima cols st = Inr st'"
    and "c \<in> set cols" and "distinct cols"
  obtains xs ys st1 st2 where "cols = xs @ c # ys" and "c \<notin> set xs" and "c \<notin> set ys"
    and "process_columns lib rl ima xs st = Inr st1"
    and "process_column lib rl ima c st1 = Inr st2"
    and "process_columns lib rl ima ys st2 = Inr st'"
proof -
  from assms(2) obtain xs ys where cols: "cols = xs @ c # ys"
    by (auto dest: split_list)
  with assms(3) have notin: "c \<notin> set xs" "c \<notin> set ys" by auto
  from assms(1) [unfolded cols process_columns_append]
  obtain st1 where st1: "process_columns lib rl ima xs st = Inr st1"
    and rest: "process_columns lib rl ima (c # ys) st1 = Inr st'"
    by (auto split: sum.splits)
  from rest obtain st2 where "process_column lib rl ima c st1 = Inr st2"
    and "process_columns lib rl ima ys st2 = Inr st'"
    by (auto split: sum.splits)
  with cols notin st1 show ?thesis by (rule that)
qed

lemma process_columns_other:
  assumes "process_columns lib rl ima cols st = Inr st'"
    and "c \<notin> set cols"
    and "c \<noteq> DEFAULT_POLICY_ID \<or> \<not> is_marl_module rl \<or> ima"
  shows "map_of (fst st') c = map_of (fst st) c"
proof (rule process_columns_invariant [OF assms(1), where I = "\<lambda>s. map_of (fst s) c = map_of (fst st) c"])
  show "map_of (fst st) c = map_of (fst st) c" ..
next
  fix c' s s'
  assume "c' \<in> set cols" "map_of (fst s) c = map_of (fst st) c"
    "process_column lib rl ima c' s = Inr s'"
  with assms(2,3) process_column_other [of lib rl ima c' s s' c]
  show "map_of (fst s') c = map_of (fst st) c" by auto
qed

lemma process_columns_shared_data:
  assumes "process_columns lib rl ima cols st = Inr st'" and "OBS \<notin> set cols"
  shows "snd st' = snd st"
proof (rule process_columns_invariant [OF assms(1), where I = "\<lambda>s. snd s = snd st"])
  show "snd st = snd st" ..
next
  fix c s s'
  assume "c \<in> set cols" "snd s = snd st" "process_column lib rl ima c s = Inr s'"
  with assms(2) process_column_shared_data [of lib rl ima c s s']
  show "snd s' = snd st" by auto
qed

lemma call_cases:
  assumes "call lib rl data episodes sd = Inr st'"
  obtains d ep rest where "data = Some d" and "episodes = ep # rest"
    and "process_columns lib rl (ep = MultiAgentEpisode) (map fst d) (d, sd) = Inr st'"
  using assms unfolding call_def
  by (auto simp: Let_def split: list.splits option.splits)

subsection \<open>The iteration for a dict from episodes to lists\<close>

lemma map_of_eps_entries:
  "map_of (map (\<lambda>(eps_id, xs). (KTup eps_id, Items xs)) per_episode) (KTup e)
     = map_option Items (map_of per_episode e)"
  by (induction per_episode) auto

lemma collect_items_eps_entries:
  assumes "distinct (map fst per_episode)" and "set ps \<subseteq> set per_episode"
  shows "collect_items lib column (map (\<lambda>(eps_id, xs). (KTup eps_id, Items xs)) per_episode)
           (map (\<lambda>(eps_id, xs). KTup eps_id) ps) acc
         = Inr (if column = OBS
                then fst acc @ concat (map (\<lambda>(eps_id, xs). replicate (length xs) eps_id) ps)
                else fst acc,
                snd acc @ concat (map snd ps))"
  using assms(2)
proof (induction ps arbitrary: acc)
  case Nil
  then show ?case by simp
next
  case (Cons p ps)
  obtain e xs where p: "p = (e, xs)" by (cases p)
  with Cons.prems have "(e, xs) \<in> set per_episode" by simp
  with assms(1) have "map_of per_episode e = Some xs" by simp
  then have look: "map_of (map (\<lambda>(eps_id, xs). (KTup eps_id, Items xs)) per_episode) (KTup e)
      = Some (Items xs)"
    by (simp add: map_of_eps_entries)
  from Cons.prems have "set ps \<subseteq> set per_episode" by simp
  note IH = Cons.IH [OF this]
  show ?case
    by (simp add: p look IH append_items_eq)
qed

lemma collect_items_eps_dict:
  assumes "distinct (map fst per_episode)"
  shows "collect_items lib column (map (\<lambda>(eps_id, xs). (KTup eps_id, Items xs)) per_episode)
           (map fst (map (\<lambda>(eps_id, xs). (KTup eps_id, Items xs)) per_episode)) ([], [])
         = Inr (if column = OBS
                then concat (map (\<lambda>(eps_id, xs). replicate (length xs) eps_id) per_episode)
                else [],
                concat (map snd per_episode))"
proof -
  have keys: "map fst (map (\<lambda>(eps_id, xs). (KTup eps_id, Items xs)) per_episode)
      = map (\<lambda>(eps_id, xs). KTup eps_id) per_episode"
    by (induction per_episode) auto
  show ?thesis
    unfolding keys collect_items_eps_entries [OF assms subset_refl] by simp
qed

lemma batch_module_data_infos:
  assumes "batch_module_data lib rest module_data = Inr module_data'"
  shows "map_of module_data' (KStr INFOS) = map_of module_data (KStr INFOS)"
  using assms
proof (induction lib rest module_data rule: batch_module_data.induct)
  case (1 lib module_data)
  then show ?case by simp
next
  case (2 lib col col_data rest module_data)
  then show ?case
    by (auto simp: update_conv' split: if_splits sum.splits)
next
  case (3 lib col b rest module_data)
  then show ?case by simp
next
  case (4 lib col d rest module_data)
  then show ?case by simp
qed

lemma default_policy_column_fails:
  assumes "process_column lib rl False DEFAULT_POLICY_ID st = Inr st'"
    and "is_marl_module rl"
    and "map_of (fst st) DEFAULT_POLICY_ID = Some (Dict d)"
  shows False
proof -
  obtain data sd where st: "st = (data, sd)" by (cases st)
  obtain data' sd' where st': "st' = (data', sd')" by (cases st')
  from assms(1) [unfolded st] show False
  proof (cases rule: process_column_cases)
    case (module_column md md')
    then show ?thesis by simp
  next
    case (list_column xs b)
    with assms(3) st show ?thesis by simp
  next
    case (single_agent d1)
    from single_agent(4) [unfolded st'] show ?thesis
    proof (cases rule: single_agent_column_cases)
      case (1 d2 mms ltb new)
      with assms(2) have "move_to_default_policy lib DEFAULT_POLICY_ID new
          (AList.update DEFAULT_POLICY_ID new data) = Inr data'"
        by simp
      then show ?thesis by (cases rule: move_to_default_policy_cases) simp
    qed
  qed
qed

lemma process_column_dict:
  assumes "process_column lib rl ima c' st = Inr st'"
    and "c \<noteq> c'"
    and "map_of (fst st) c = Some (Dict d)"
  shows "\<exists>d'. map_of (fst st') c = Some (Dict d')"
proof (cases "c = DEFAULT_POLICY_ID \<and> is_marl_module rl \<and> \<not> ima")
  case False
  with process_column_other [OF assms(1,2)] assms(3) show ?thesis by auto
next
  case True
  obtain data sd where st: "st = (data, sd)" by (cases st)
  obtain data' sd' where st': "st' = (data', sd')" by (cases st')
  from assms(1) [unfolded st] show ?thesis
  proof (cases rule: process_column_cases)
    case (module_column md md')
    with True show ?thesis by simp
  next
    case (list_column xs b)
    with assms(2,3) st show ?thesis by (simp add: update_conv')
  next
    case (single_agent d1)
    from single_agent(4) [unfolded st'] show ?thesis
    proof (cases rule: single_agent_column_cases)
      case (1 d2 mms ltb new)
      with True have "move_to_default_policy lib c' new (AList.update c' new data) = Inr data'"
        by simp
      then show ?thesis
        using True st' by (cases rule: move_to_default_policy_cases) simp
    qed
  qed
qed

lemma process_column_moved:
  assumes "process_column lib rl False c' st = Inr st'"
    and "is_marl_module rl"
    and "c \<noteq> c'"
    and "map_of (fst st) c = None"
    and "map_of (fst st) DEFAULT_POLICY_ID = Some (Dict dd)"
    and "map_of dd (KStr c) = Some new"
  shows "map_of (fst st') c = None
       \<and> (\<exists>dd'. map_of (fst st') DEFAULT_POLICY_ID = Some (Dict dd')
             \<and> map_of dd' (KStr c) = Some new)"
proof -
  obtain data sd where st: "st = (data, sd)" by (cases st)
  obtain data' sd' where st': "st' = (data', sd')" by (cases st')
  from assms(4,5) have ne: "c \<noteq> DEFAULT_POLICY_ID" by auto
  from assms(1) [unfolded st] show ?thesis
  proof (cases rule: process_column_cases)
    case (module_column md md')
    then show ?thesis by simp
  next
    case (list_column xs b)
    with assms(3-6) st have "c' \<noteq> DEFAULT_POLICY_ID" by auto
    with list_column assms(3-6) st show ?thesis by (simp add: update_conv')
  next
    case (single_agent d1)
    from single_agent(4) [unfolded st'] show ?thesis
    proof (cases rule: single_agent_column_cases)
      case (1 d2 mms ltb new')
      with assms(2) have "move_to_default_policy lib c' new' (AList.update c' new' data) = Inr data'"
        by simp
      then show ?thesis
      proof (cases rule: move_to_default_policy_cases)
        case (1 d0)
        from 1(1,2) assms(5) st have d0: "d0 = dd" by (simp add: update_conv')
        from 1(3) assms(3,4) ne st st' have "map_of (fst st') c = None"
          by (simp add: update_conv')
        moreover from 1(3) d0 st' have "map_of (fst st') DEFAULT_POLICY_ID
            = Some (Dict (AList.update (KStr c') new' dd))"
          by simp
        moreover from assms(3,6) have "map_of (AList.update (KStr c') new' dd) (KStr c) = Some new"
          by (simp add: update_conv')
        ultimately show ?thesis by blast
      qed
    qed
  qed
qed

lemma process_column_eps_dict:
  assumes "process_column lib rl False c st = Inr st'"
    and "map_of (fst st) c = Some (eps_dict per_episode)"
    and "distinct (map fst per_episode)"
  shows "\<exists>new. (if c = INFOS then new = Items (concat (map snd per_episode))
               else batch lib (concat (map snd per_episode)) = Inr new)
       \<and> (if is_marl_module rl
          then map_of (fst st') c = None
             \<and> (\<exists>dd. map_of (fst st') DEFAULT_POLICY_ID = Some (Dict dd)
                   \<and> map_of dd (KStr c) = Some new)
          else map_of (fst st') c = Some new)
       \<and> (if c = OBS
          then \<exists>m. snd st = Some m
                 \<and> snd st' = Some (m(''memorized_map_structure'' \<mapsto> Map_structure
                     (concat (map (\<lambda>(eps_id, xs). replicate (length xs) eps_id) per_episode))))
          else snd st' = snd st)"
proof -
  obtain data sd where st: "st = (data, sd)" by (cases st)
  obtain data' sd' where st': "st' = (data', sd')" by (cases st')
  let ?d = "map (\<lambda>(eps_id, xs). (KTup eps_id, Items xs)) per_episode"
  from assms(2) st have at: "map_of data c = Some (Dict ?d)" by (simp add: eps_dict_def)
  from assms(1) [unfolded st] show ?thesis
  proof (cases rule: process_column_cases)
    case (module_column md md')
    then show ?thesis by simp
  next
    case (list_column xs b)
    with at show ?thesis by simp
  next
    case (single_agent d1)
    with at have d1: "d1 = ?d" by simp
    from single_agent(4) [unfolded st' d1] show ?thesis
    proof (cases rule: single_agent_column_cases)
      case (1 d2 mms ltb new)
      from 1(1) have d2: "d2 = ?d" by simp
      from 1(2) [unfolded d2 collect_items_eps_dict [OF assms(3)]]
      have mms: "mms = (if c = OBS
            then concat (map (\<lambda>(eps_id, xs). replicate (length xs) eps_id) per_episode) else [])"
        and ltb: "ltb = concat (map snd per_episode)"
        by simp_all
      have new: "if c = INFOS then new = Items (concat (map snd per_episode))
               else batch lib (concat (map snd per_episode)) = Inr new"
        using 1(3) [unfolded ltb] .
      have shared: "if c = OBS
          then \<exists>m. snd st = Some m
                 \<and> snd st' = Some (m(''memorized_map_structure'' \<mapsto> Map_structure
                     (concat (map (\<lambda>(eps_id, xs). replicate (length xs) eps_id) per_episode))))
          else snd st' = snd st"
        using 1(5) mms st st' by (simp split: if_splits)
      have place: "if is_marl_module rl
          then map_of (fst st') c = None
             \<and> (\<exists>dd. map_of (fst st') DEFAULT_POLICY_ID = Some (Dict dd)
                   \<and> map_of dd (KStr c) = Some new)
          else map_of (fst st') c = Some new"
      proof (cases "is_marl_module rl")
        case True
        with 1(4) have "move_to_default_policy lib c new (AList.update c new data) = Inr data'"
          by simp
        then show ?thesis
          using True st' by (cases rule: move_to_default_policy_cases) (simp add: update_conv')
      next
        case False
        with 1(4) st' show ?thesis by (simp add: update_conv')
      qed
      from new place shared show ?thesis by blast
    qed
  qed
qed

text \<open>
  An iteration removes no column but its own: a column of the copy is in \<open>data\<close> when
  its iteration starts.
\<close>

lemma process_column_keeps_column:
  assumes "process_column lib rl ima c' st = Inr st'"
    and "c \<noteq> c'"
    and "map_of (fst st) c \<noteq> None"
  shows "map_of (fst st') c \<noteq> None"
proof (cases "c \<noteq> DEFAULT_POLICY_ID \<or> \<not> is_marl_module rl \<or> ima")
  case True
  from process_column_other [OF assms(1,2) True] assms(3) show ?thesis by simp
next
  case False
  obtain data sd where st: "st = (data, sd)" by (cases st)
  obtain data' sd' where st': "st' = (data', sd')" by (cases st')
  from assms(1) [unfolded st] show ?thesis
  proof (cases rule: process_column_cases)
    case (module_column md md')
    with False show ?thesis by simp
  next
    case (list_column xs v)
    with assms(2,3) st show ?thesis by (simp add: update_conv')
  next
    case (single_agent d)
    from single_agent(4) [unfolded st'] show ?thesis
    proof (cases rule: single_agent_column_cases)
      case (1 d1 mms ltb new)
      with False have "move_to_default_policy lib c' new (AList.update c' new data) = Inr data'"
        by simp
      then show ?thesis
        using False st' by (cases rule: move_to_default_policy_cases) simp
    qed
  qed
qed

subsection \<open>What the rest of the loop does to a column\<close>

lemma process_columns_dict:
  assumes "process_columns lib rl ima cols st = Inr st'"
    and "c \<notin> set cols"
    and "map_of (fst st) c = Some (Dict d)"
  shows "\<exists>d'. map_of (fst st') c = Some (Dict d')"
proof (rule process_columns_invariant [OF assms(1),
      where I = "\<lambda>s. \<exists>d'. map_of (fst s) c = Some (Dict d')"])
  show "\<exists>d'. map_of (fst st) c = Some (Dict d')" using assms(3) by blast
next
  fix c' s s'
  assume "c' \<in> set cols" "\<exists>d'. map_of (fst s) c = Some (Dict d')"
    "process_column lib rl ima c' s = Inr s'"
  with assms(2) process_column_dict [of lib rl ima c' s s' c]
  show "\<exists>d'. map_of (fst s') c = Some (Dict d')" by auto
qed

lemma process_columns_moved:
  assumes "process_columns lib rl False cols st = Inr st'"
    and "is_marl_module rl"
    and "c \<notin> set cols"
    and "map_of (fst st) c = None"
    and "map_of (fst st) DEFAULT_POLICY_ID = Some (Dict dd)"
    and "map_of dd (KStr c) = Some new"
  shows "map_of (fst st') c = None
       \<and> (\<exists>dd'. map_of (fst st') DEFAULT_POLICY_ID = Some (Dict dd')
             \<and> map_of dd' (KStr c) = Some new)"
proof (rule process_columns_invariant [OF assms(1),
      where I = "\<lambda>s. map_of (fst s) c = None
       \<and> (\<exists>dd'. map_of (fst s) DEFAULT_POLICY_ID = Some (Dict dd')
             \<and> map_of dd' (KStr c) = Some new)"])
  show "map_of (fst st) c = None
       \<and> (\<exists>dd'. map_of (fst st) DEFAULT_POLICY_ID = Some (Dict dd')
             \<and> map_of dd' (KStr c) = Some new)"
    using assms(4-6) by blast
next
  fix c' s s'
  assume c': "c' \<in> set cols"
    and inv: "map_of (fst s) c = None
       \<and> (\<exists>dd'. map_of (fst s) DEFAULT_POLICY_ID = Some (Dict dd')
             \<and> map_of dd' (KStr c) = Some new)"
    and step: "process_column lib rl False c' s = Inr s'"
  from inv obtain dd' where "map_of (fst s) c = None"
    "map_of (fst s) DEFAULT_POLICY_ID = Some (Dict dd')" "map_of dd' (KStr c) = Some new"
    by blast
  moreover from c' assms(3) have "c \<noteq> c'" by auto
  ultimately show "map_of (fst s') c = None
       \<and> (\<exists>dd'. map_of (fst s') DEFAULT_POLICY_ID = Some (Dict dd')
             \<and> map_of dd' (KStr c) = Some new)"
    using process_column_moved [OF step assms(2)] by blast
qed

lemma episode_column_result:
  assumes run: "process_columns lib rl False cols (data, sd) = Inr (data', sd')"
    and cols: "distinct cols" "c \<in> set cols"
    and at: "map_of data c = Some (eps_dict per_episode)"
    and pe: "distinct (map fst per_episode)"
  shows "\<exists>new. (if c = INFOS then new = Items (concat (map snd per_episode))
               else batch lib (concat (map snd per_episode)) = Inr new)
       \<and> (if is_marl_module rl
          then map_of data' c = None
             \<and> (\<exists>dd. map_of data' DEFAULT_POLICY_ID = Some (Dict dd)
                   \<and> map_of dd (KStr c) = Some new)
          else map_of data' c = Some new)"
proof -
  from process_columns_at [OF run cols(2,1)] obtain before after st1 st2 where
    notin: "c \<notin> set before" "c \<notin> set after"
    and r1: "process_columns lib rl False before (data, sd) = Inr st1"
    and r2: "process_column lib rl False c st1 = Inr st2"
    and r3: "process_columns lib rl False after st2 = Inr (data', sd')"
    by metis
  have ne: "c \<noteq> DEFAULT_POLICY_ID" if "is_marl_module rl"
  proof
    assume c: "c = DEFAULT_POLICY_ID"
    from process_columns_dict [OF r1 notin(1)] at obtain d' where
      "map_of (fst st1) c = Some (Dict d')"
      by (auto simp: eps_dict_def)
    with default_policy_column_fails [OF r2 [unfolded c] that] c show False by simp
  qed
  then have "c \<noteq> DEFAULT_POLICY_ID \<or> \<not> is_marl_module rl \<or> False" by blast
  from process_columns_other [OF r1 notin(1) this] at
  have at1: "map_of (fst st1) c = Some (eps_dict per_episode)" by simp
  from process_column_eps_dict [OF r2 at1 pe] obtain new where
    new: "if c = INFOS then new = Items (concat (map snd per_episode))
          else batch lib (concat (map snd per_episode)) = Inr new"
    and place: "if is_marl_module rl
          then map_of (fst st2) c = None
             \<and> (\<exists>dd. map_of (fst st2) DEFAULT_POLICY_ID = Some (Dict dd)
                   \<and> map_of dd (KStr c) = Some new)
          else map_of (fst st2) c = Some new"
    by blast
  have "if is_marl_module rl
          then map_of data' c = None
             \<and> (\<exists>dd. map_of data' DEFAULT_POLICY_ID = Some (Dict dd)
                   \<and> map_of dd (KStr c) = Some new)
          else map_of data' c = Some new"
  proof (cases "is_marl_module rl")
    case True
    with place obtain dd where "map_of (fst st2) c = None"
      "map_of (fst st2) DEFAULT_POLICY_ID = Some (Dict dd)" "map_of dd (KStr c) = Some new"
      by auto
    from process_columns_moved [OF r3 True notin(2) this] True show ?thesis by simp
  next
    case False
    with place have "map_of (fst st2) c = Some new" by simp
    moreover from False have "c \<noteq> DEFAULT_POLICY_ID \<or> \<not> is_marl_module rl \<or> False" by simp
    note process_columns_other [OF r3 notin(2) this]
    ultimately show ?thesis using False by simp
  qed
  with new show ?thesis by blast
qed

lemma map_of_in_keys: "map_of al k = Some v \<Longrightarrow> k \<in> set (map fst al)"
  by (auto dest: map_of_SomeD intro: rev_image_eqI)

lemma zip_episode_ids:
  "zip (concat (map (\<lambda>(eps_id, xs). replicate (length xs) eps_id) per_episode))
       (concat (map snd per_episode))
   = concat (map (\<lambda>(eps_id, xs). map (Pair eps_id) xs) per_episode)"
proof (induction per_episode)
  case Nil
  then show ?case by simp
next
  case (Cons p ps)
  obtain e xs where p: "p = (e, xs)" by (cases p)
  have "zip (replicate (length xs) e) xs = map (Pair e) xs"
    by (induction xs) simp_all
  with Cons p show ?case by (simp add: zip_append)
qed

lemma map_of_middle:
  assumes "distinct (map fst (before @ (k, v) # after))"
  shows "map_of (before @ (k, v) # after) k = Some v"
  using assms by (induction before) auto

lemma process_column_not_implemented:
  assumes "map_of (fst st) column = Some column_data"
    and "\<not> in_marl_module rl_module column"
    and "\<forall>xs. column_data \<noteq> (Items xs)"
  shows "process_column lib rl_module True column st = Inl NotImplementedError"
  using assms by (cases column_data) (simp_all add: process_column_def)

lemmas call_simps =
  call_def process_column_def single_agent_column_def move_to_default_policy_def
  example_lib_def eps_dict_def OBS_def INFOS_def DEFAULT_POLICY_ID_def

subsection \<open>The example calls return\<close>

lemma example_call_returns:
  "call example_lib RLModule
       (Some example_data)
       [SingleAgentEpisode] (Some (Map.empty :: string \<rightharpoonup> unit shared_val)) \<noteq> Inl e"
  by (simp add: call_simps example_data_def example_module_data_def)

lemma example_call_marl_returns:
  "call example_lib (MultiAgentRLModule [''default_policy''])
       (Some example_data)
       [SingleAgentEpisode] (Some (Map.empty :: string \<rightharpoonup> unit shared_val)) \<noteq> Inl e"
  by (simp add: call_simps example_data_def example_module_data_def)

lemma example_call_modules_returns:
  "call example_lib (MultiAgentRLModule [''m1'', ''m2''])
       (Some example_module_data)
       [MultiAgentEpisode] (None :: unit shared_data) \<noteq> Inl e"
  by (simp add: call_simps example_data_def example_module_data_def)

lemma not_Inl_obtain:
  assumes "\<And>e. r \<noteq> Inl e"
  obtains x y where "r = Inr (x, y)"
  using assms by (cases r) auto

subsection \<open>Columns that hold a list\<close>




subsection \<open>Columns that hold a dict from episodes to lists\<close>

text \<open>
  C1, as amended. In the single-agent case, when the call returns, for every column
  other than \<open>"infos"\<close> whose value maps the keys \<open>(eps_id,)\<close> to lists of items: the
  batch of the concatenation of these lists, episodes in key order and items in list
  order, stands under that column when \<open>rl_module\<close> is not a \<open>MultiAgentRLModule\<close>;
  when it is one, the column is removed from \<open>data\<close> and the batch stands under
  \<open>data["default_policy"][column]\<close>.
\<close>

theorem episode_column_is_batched:
  assumes "call lib rl_module (Some data) (SingleAgentEpisode # rest) shared_data
             = Inr (data', shared_data')"
    and "distinct (map fst data)"
    and "map_of data column = Some (eps_dict per_episode)"
    and "distinct (map fst per_episode)"
    and "column \<noteq> INFOS"
  shows "\<exists>v. batch lib (concat (map snd per_episode)) = Inr v
       \<and> (if is_marl_module rl_module
          then map_of data' column = None
             \<and> (\<exists>dd. map_of data' DEFAULT_POLICY_ID = Some (Dict dd)
                   \<and> map_of dd (KStr column) = Some v)
          else map_of data' column = Some v)"
proof -
  from assms(1) have run: "process_columns lib rl_module False (map fst data) (data, shared_data)
      = Inr (data', shared_data')"
    by (cases rule: call_cases) simp
  from episode_column_result [OF run assms(2) map_of_in_keys [OF assms(3)] assms(3,4)] assms(5)
  show ?thesis by auto
qed

theorem episode_column_is_batched_witness:
  "(\<exists>data' shared_data'. call example_lib RLModule
       (Some example_data)
       [SingleAgentEpisode] (Some (Map.empty :: string \<rightharpoonup> unit shared_val))
     = Inr (data', shared_data')
     \<and> map_of data' ''obs'' = Some (Batched [1, 2, 3]))
   \<and> (\<exists>data' shared_data' dd. call example_lib (MultiAgentRLModule [''default_policy''])
       (Some example_data)
       [SingleAgentEpisode] (Some (Map.empty :: string \<rightharpoonup> unit shared_val))
     = Inr (data', shared_data')
     \<and> map_of data' ''obs'' = None
     \<and> map_of data' ''default_policy'' = Some (Dict dd)
     \<and> map_of dd (KStr ''obs'') = Some (Batched [1, 2, 3]))"
proof -
  obtain d1 s1 where c1: "call example_lib RLModule
       (Some example_data)
       [SingleAgentEpisode] (Some (Map.empty :: string \<rightharpoonup> unit shared_val))
     = Inr (d1, s1)"
    using example_call_returns by (rule not_Inl_obtain)
  obtain d2 s2 where c2: "call example_lib (MultiAgentRLModule [''default_policy''])
       (Some example_data)
       [SingleAgentEpisode] (Some (Map.empty :: string \<rightharpoonup> unit shared_val))
     = Inr (d2, s2)"
    using example_call_marl_returns by (rule not_Inl_obtain)
  from episode_column_is_batched [OF c1, where column = "''obs''"
      and per_episode = "[(''e1'', [1, 2]), (''e2'', [3])]"]
  have "map_of d1 ''obs'' = Some (Batched [1, 2, 3])"
    by (simp add: example_lib_def example_data_def INFOS_def)
  moreover
  from episode_column_is_batched [OF c2, where column = "''obs''"
      and per_episode = "[(''e1'', [1, 2]), (''e2'', [3])]"]
  have "map_of d2 ''obs'' = None
      \<and> (\<exists>dd. map_of d2 ''default_policy'' = Some (Dict dd)
            \<and> map_of dd (KStr ''obs'') = Some (Batched [1, 2, 3]))"
    by (simp add: example_lib_def example_data_def INFOS_def DEFAULT_POLICY_ID_def)
  ultimately show ?thesis using c1 c2 by blast
qed

text \<open>
  The claim as stated fails on the \<open>"infos"\<close> column, which is left as the plain
  concatenated list, and with a \<open>MultiAgentRLModule\<close>, where the column is moved
  under \<open>"default_policy"\<close> (lines 65 to 68).
\<close>

theorem episode_column_counterexample:
  "call example_lib RLModule
       (Some [(''infos'', eps_dict [(''e1'', [7, 8]), (''e2'', [9])])])
       [SingleAgentEpisode] (None :: unit shared_data)
     = Inr ([(''infos'', (Items [7, 8, 9]))], None)
   \<and> batch example_lib [7, 8, 9] = Inr (Batched [7, 8, 9])
   \<and> call example_lib (MultiAgentRLModule [''default_policy''])
       (Some [(''rewards'', eps_dict [(''e1'', [1, 2]), (''e2'', [3])])])
       [SingleAgentEpisode] (None :: unit shared_data)
     = Inr ([(''default_policy'', Dict [(KStr ''rewards'', Batched [1, 2, 3])])], None)"
  by (simp add: call_simps)

subsection \<open>The infos column\<close>

text \<open>
  C3, as amended. When the call returns: in the single-agent case, an \<open>"infos"\<close>
  column that maps the keys \<open>(eps_id,)\<close> to lists ends as the plain concatenated list
  of the items, not batched, under \<open>data["infos"]\<close> when \<open>rl_module\<close> is not a
  \<open>MultiAgentRLModule\<close> and under \<open>data["default_policy"]["infos"]\<close> when it is one;
  and what stands under \<open>"infos"\<close> in the dict of a module of a \<open>MultiAgentRLModule\<close>
  is left unchanged.
\<close>

theorem infos_is_not_batched:
  assumes "call lib rl_module (Some data) episodes shared_data = Inr (data', shared_data')"
    and "distinct (map fst data)"
  shows "(\<forall>per_episode rest.
            episodes = SingleAgentEpisode # rest
            \<and> map_of data INFOS = Some (eps_dict per_episode)
            \<and> distinct (map fst per_episode) \<longrightarrow>
            (if is_marl_module rl_module
             then map_of data' INFOS = None
                \<and> (\<exists>dd. map_of data' DEFAULT_POLICY_ID = Some (Dict dd)
                      \<and> map_of dd (KStr INFOS) = Some (Items (concat (map snd per_episode))))
             else map_of data' INFOS = Some (Items (concat (map snd per_episode)))))
       \<and> (\<forall>module_id module_data l.
            in_marl_module rl_module module_id
            \<and> map_of data module_id = Some (Dict module_data)
            \<and> map_of module_data (KStr INFOS) = Some l \<longrightarrow>
            (\<exists>module_data'. map_of data' module_id = Some (Dict module_data')
               \<and> map_of module_data' (KStr INFOS) = Some l))"
proof (intro conjI allI impI)
  fix per_episode rest
  assume a: "episodes = SingleAgentEpisode # rest
            \<and> map_of data INFOS = Some (eps_dict per_episode)
            \<and> distinct (map fst per_episode)"
  with assms(1) have run: "process_columns lib rl_module False (map fst data) (data, shared_data)
      = Inr (data', shared_data')"
    by (cases rule: call_cases) simp
  from a have at: "map_of data INFOS = Some (eps_dict per_episode)"
    and pe: "distinct (map fst per_episode)" by simp_all
  from episode_column_result [OF run assms(2) map_of_in_keys [OF at] at pe]
  show "if is_marl_module rl_module
        then map_of data' INFOS = None
           \<and> (\<exists>dd. map_of data' DEFAULT_POLICY_ID = Some (Dict dd)
                 \<and> map_of dd (KStr INFOS) = Some (Items (concat (map snd per_episode))))
        else map_of data' INFOS = Some (Items (concat (map snd per_episode)))"
    by auto
next
  fix module_id module_data l
  assume a: "in_marl_module rl_module module_id
            \<and> map_of data module_id = Some (Dict module_data)
            \<and> map_of module_data (KStr INFOS) = Some l"
  then have in_m: "in_marl_module rl_module module_id"
    and at: "map_of data module_id = Some (Dict module_data)"
    and l: "map_of module_data (KStr INFOS) = Some l" by simp_all
  from assms(1) obtain ep where
    run: "process_columns lib rl_module (ep = MultiAgentEpisode) (map fst data) (data, shared_data)
      = Inr (data', shared_data')"
    by (cases rule: call_cases) simp
  let ?ima = "ep = MultiAgentEpisode"
  from process_columns_at [OF run map_of_in_keys [OF at] assms(2)]
  obtain before after st1 st2 where
    notin: "module_id \<notin> set before" "module_id \<notin> set after"
    and r1: "process_columns lib rl_module ?ima before (data, shared_data) = Inr st1"
    and r2: "process_column lib rl_module ?ima module_id st1 = Inr st2"
    and r3: "process_columns lib rl_module ?ima after st2 = Inr (data', shared_data')"
    by metis
  obtain d1 s1 where st1: "st1 = (d1, s1)" by (cases st1)
  from r2 [unfolded st1] in_m have ima: ?ima
    by (cases rule: process_column_cases) simp_all
  then have cond: "module_id \<noteq> DEFAULT_POLICY_ID \<or> \<not> is_marl_module rl_module \<or> ?ima"
    by blast
  from process_columns_other [OF r1 notin(1) cond] at st1
  have at1: "map_of d1 module_id = Some (Dict module_data)" by simp
  from r2 [unfolded st1] have "\<exists>md'. map_of (fst st2) module_id = Some (Dict md')
      \<and> map_of md' (KStr INFOS) = Some l"
  proof (cases rule: process_column_cases)
    case (module_column md md')
    with at1 l batch_module_data_infos [of lib md md md'] show ?thesis
      by (simp add: update_conv')
  next
    case (list_column xs b)
    with in_m show ?thesis by simp
  next
    case (single_agent d)
    with in_m show ?thesis by simp
  qed
  with process_columns_other [OF r3 notin(2) cond]
  show "\<exists>module_data'. map_of data' module_id = Some (Dict module_data')
               \<and> map_of module_data' (KStr INFOS) = Some l"
    by simp
qed

theorem infos_is_not_batched_witness:
  "(\<exists>data' shared_data'. call example_lib RLModule
       (Some example_data)
       [SingleAgentEpisode] (Some (Map.empty :: string \<rightharpoonup> unit shared_val))
     = Inr (data', shared_data')
     \<and> map_of data' ''infos'' = Some (Items [7, 8, 9]))
   \<and> (\<exists>data' shared_data' dd. call example_lib (MultiAgentRLModule [''default_policy''])
       (Some example_data)
       [SingleAgentEpisode] (Some (Map.empty :: string \<rightharpoonup> unit shared_val))
     = Inr (data', shared_data')
     \<and> map_of data' ''infos'' = None
     \<and> map_of data' ''default_policy'' = Some (Dict dd)
     \<and> map_of dd (KStr ''infos'') = Some (Items [7, 8, 9]))
   \<and> (\<exists>data' shared_data' module_data'. call example_lib (MultiAgentRLModule [''m1'', ''m2''])
       (Some example_module_data)
       [MultiAgentEpisode] (None :: unit shared_data)
     = Inr (data', shared_data')
     \<and> map_of data' ''m1'' = Some (Dict module_data')
     \<and> map_of module_data' (KStr ''infos'') = Some (Items [3, 4]))"
proof -
  obtain d1 s1 where c1: "call example_lib RLModule
       (Some example_data)
       [SingleAgentEpisode] (Some (Map.empty :: string \<rightharpoonup> unit shared_val))
     = Inr (d1, s1)"
    using example_call_returns by (rule not_Inl_obtain)
  obtain d2 s2 where c2: "call example_lib (MultiAgentRLModule [''default_policy''])
       (Some example_data)
       [SingleAgentEpisode] (Some (Map.empty :: string \<rightharpoonup> unit shared_val))
     = Inr (d2, s2)"
    using example_call_marl_returns by (rule not_Inl_obtain)
  obtain d3 s3 where c3: "call example_lib (MultiAgentRLModule [''m1'', ''m2''])
       (Some example_module_data)
       [MultiAgentEpisode] (None :: unit shared_data)
     = Inr (d3, s3)"
    using example_call_modules_returns by (rule not_Inl_obtain)
  from infos_is_not_batched [OF c1, THEN conjunct1, rule_format,
      where per_episode = "[(''e1'', [7, 8]), (''e2'', [9])]" and rest = "[]"]
  have "map_of d1 ''infos'' = Some (Items [7, 8, 9])"
    by (simp add: example_data_def INFOS_def)
  moreover
  from infos_is_not_batched [OF c2, THEN conjunct1, rule_format,
      where per_episode = "[(''e1'', [7, 8]), (''e2'', [9])]" and rest = "[]"]
  have "map_of d2 ''infos'' = None
      \<and> (\<exists>dd. map_of d2 ''default_policy'' = Some (Dict dd)
            \<and> map_of dd (KStr ''infos'') = Some (Items [7, 8, 9]))"
    by (simp add: example_data_def INFOS_def DEFAULT_POLICY_ID_def)
  moreover
  from infos_is_not_batched [OF c3, THEN conjunct2, rule_format,
      where module_id = "''m1''" and l = "Items [3, 4]"
        and module_data = "[(KStr ''obs'', Items [1, 2]), (KStr ''infos'', Items [3, 4])]"]
  have "\<exists>module_data'. map_of d3 ''m1'' = Some (Dict module_data')
      \<and> map_of module_data' (KStr ''infos'') = Some (Items [3, 4])"
    by (simp add: example_module_data_def INFOS_def)
  ultimately show ?thesis using c1 c2 c3 by blast
qed

text \<open>
  With a \<open>MultiAgentRLModule\<close> and single-agent episodes, \<open>data\<close> has no \<open>"infos"\<close>
  column after the call: the list has been moved under \<open>"default_policy"\<close>.
\<close>

theorem infos_counterexample:
  "call example_lib (MultiAgentRLModule [''default_policy''])
       (Some [(''infos'', eps_dict [(''e1'', [7, 8]), (''e2'', [9])])])
       [SingleAgentEpisode] (None :: unit shared_data)
     = Inr ([(''default_policy'', Dict [(KStr ''infos'', Items [7, 8, 9])])], None)
   \<and> map_of [(''default_policy'', Dict [(KStr ''infos'', Items [7, 8, 9])]
               :: (nat, nat list) val)] ''infos'' = None"
  by (simp add: call_simps)

text \<open>
  An \<open>"infos"\<close> column that holds a list directly takes the branch of line 43, which
  has no test for \<open>"infos"\<close>, and is batched.
\<close>

lemma infos_list_is_batched:
  "call example_lib RLModule (Some [(''infos'', (Items [7, 8, 9]))])
       [SingleAgentEpisode] (None :: unit shared_data)
     = Inr ([(''infos'', (Batched [7, 8, 9]))], None)"
  by (simp add: call_simps)

subsection \<open>The memorized map structure\<close>

text \<open>
  C10. In the single-agent case, when the call returns: if the \<open>"obs"\<close> column maps the
  keys \<open>(eps_id,)\<close> to lists, then \<open>shared_data\<close> is the one before the call with
  \<open>"memorized_map_structure"\<close> set to the list of episode ids that has one entry per
  observation item, in the order in which the items were concatenated; if the \<open>"obs"\<close>
  column is absent or holds no dict, \<open>shared_data\<close> is unchanged; and an iteration of
  the loop for any column other than \<open>"obs"\<close> leaves \<open>shared_data\<close> unchanged.
\<close>

theorem memorized_map_structure:
  assumes "call lib rl_module (Some data) (SingleAgentEpisode # rest) shared_data
             = Inr (data', shared_data')"
    and "distinct (map fst data)"
  shows "(\<forall>per_episode.
            map_of data OBS = Some (eps_dict per_episode) \<and> distinct (map fst per_episode) \<longrightarrow>
            (\<exists>shared ids.
               shared_data = Some shared
             \<and> shared_data' = Some (shared(''memorized_map_structure'' \<mapsto> Map_structure ids))
             \<and> ids = concat (map (\<lambda>(eps_id, xs). replicate (length xs) eps_id) per_episode)
             \<and> zip ids (concat (map snd per_episode))
                 = concat (map (\<lambda>(eps_id, xs). map (Pair eps_id) xs) per_episode)))
       \<and> ((\<forall>d. map_of data OBS \<noteq> Some (Dict d)) \<longrightarrow> shared_data' = shared_data)
       \<and> (\<forall>column st st'.
            column \<noteq> OBS \<and> process_column lib rl_module False column st = Inr st' \<longrightarrow>
            snd st' = snd st)"
proof (intro conjI allI impI)
  from assms(1) have run: "process_columns lib rl_module False (map fst data) (data, shared_data)
      = Inr (data', shared_data')"
    by (cases rule: call_cases) simp
  {
    fix per_episode
    assume a: "map_of data OBS = Some (eps_dict per_episode) \<and> distinct (map fst per_episode)"
    then have at: "map_of data OBS = Some (eps_dict per_episode)"
      and pe: "distinct (map fst per_episode)" by simp_all
    from process_columns_at [OF run map_of_in_keys [OF at] assms(2)]
    obtain before after st1 st2 where
      notin: "OBS \<notin> set before" "OBS \<notin> set after"
      and r1: "process_columns lib rl_module False before (data, shared_data) = Inr st1"
      and r2: "process_column lib rl_module False OBS st1 = Inr st2"
      and r3: "process_columns lib rl_module False after st2 = Inr (data', shared_data')"
      by metis
    have "OBS \<noteq> DEFAULT_POLICY_ID" by (simp add: OBS_def DEFAULT_POLICY_ID_def)
    then have "OBS \<noteq> DEFAULT_POLICY_ID \<or> \<not> is_marl_module rl_module \<or> False" by blast
    from process_columns_other [OF r1 notin(1) this] at
    have at1: "map_of (fst st1) OBS = Some (eps_dict per_episode)" by simp
    from process_column_eps_dict [OF r2 at1 pe] obtain shared where
      "snd st1 = Some shared"
      "snd st2 = Some (shared(''memorized_map_structure'' \<mapsto> Map_structure
          (concat (map (\<lambda>(eps_id, xs). replicate (length xs) eps_id) per_episode))))"
      by auto
    with process_columns_shared_data [OF r1 notin(1)] process_columns_shared_data [OF r3 notin(2)]
    have sd: "shared_data = Some shared"
      and sd': "shared_data' = Some (shared(''memorized_map_structure'' \<mapsto> Map_structure
          (concat (map (\<lambda>(eps_id, xs). replicate (length xs) eps_id) per_episode))))"
      by simp_all
    show "\<exists>shared ids.
               shared_data = Some shared
             \<and> shared_data' = Some (shared(''memorized_map_structure'' \<mapsto> Map_structure ids))
             \<and> ids = concat (map (\<lambda>(eps_id, xs). replicate (length xs) eps_id) per_episode)
             \<and> zip ids (concat (map snd per_episode))
                 = concat (map (\<lambda>(eps_id, xs). map (Pair eps_id) xs) per_episode)"
      unfolding sd sd' by (simp add: zip_episode_ids)
  }
  {
    assume no_dict: "\<forall>d. map_of data OBS \<noteq> Some (Dict d)"
    show "shared_data' = shared_data"
    proof (cases "map_of data OBS")
      case None
      then have "OBS \<notin> set (map fst data)" by (simp add: map_of_eq_None_iff)
      from process_columns_shared_data [OF run this] show ?thesis by simp
    next
      case (Some v)
      note at = Some
      from process_columns_at [OF run map_of_in_keys [OF at] assms(2)]
      obtain before after st1 st2 where
        notin: "OBS \<notin> set before" "OBS \<notin> set after"
        and r1: "process_columns lib rl_module False before (data, shared_data) = Inr st1"
        and r2: "process_column lib rl_module False OBS st1 = Inr st2"
        and r3: "process_columns lib rl_module False after st2 = Inr (data', shared_data')"
        by metis
      have "OBS \<noteq> DEFAULT_POLICY_ID" by (simp add: OBS_def DEFAULT_POLICY_ID_def)
      then have "OBS \<noteq> DEFAULT_POLICY_ID \<or> \<not> is_marl_module rl_module \<or> False" by blast
      from process_columns_other [OF r1 notin(1) this] at
      have at1: "map_of (fst st1) OBS = Some v" by simp
      obtain d1 s1 where st1: "st1 = (d1, s1)" by (cases st1)
      from r2 [unfolded st1] have "snd st2 = snd st1"
      proof (cases rule: process_column_cases)
        case (module_column md md')
        with at1 at no_dict st1 show ?thesis by auto
      next
        case (list_column xs b)
        with st1 show ?thesis by simp
      next
        case (single_agent d)
        with at1 at no_dict st1 show ?thesis by auto
      qed
      with process_columns_shared_data [OF r1 notin(1)] process_columns_shared_data [OF r3 notin(2)]
      show ?thesis by simp
    qed
  }
  {
    fix column st st'
    assume "column \<noteq> OBS \<and> process_column lib rl_module False column st = Inr st'"
    with process_column_shared_data [of lib rl_module False column st st']
    show "snd st' = snd st" by simp
  }
qed

theorem memorized_map_structure_witness:
  "\<exists>data' shared_data'. call example_lib RLModule
       (Some example_data)
       [SingleAgentEpisode] (Some (Map.empty :: string \<rightharpoonup> unit shared_val))
     = Inr (data', shared_data')
     \<and> shared_data' = Some [''memorized_map_structure'' \<mapsto> Map_structure [''e1'', ''e1'', ''e2'']]"
proof -
  obtain d1 s1 where c1: "call example_lib RLModule
       (Some example_data)
       [SingleAgentEpisode] (Some (Map.empty :: string \<rightharpoonup> unit shared_val))
     = Inr (d1, s1)"
    using example_call_returns by (rule not_Inl_obtain)
  from memorized_map_structure [OF c1, THEN conjunct1, rule_format,
      where per_episode = "[(''e1'', [1, 2]), (''e2'', [3])]"]
  have "s1 = Some [''memorized_map_structure'' \<mapsto> Map_structure [''e1'', ''e1'', ''e2'']]"
    by (simp add: example_data_def OBS_def)
  with c1 show ?thesis by blast
qed

subsection \<open>Multi-agent data that is not mapped to modules\<close>

text \<open>
  C9. When the episodes are multi-agent and \<open>data\<close> has a column that holds no list and
  is not a column of a module of a \<open>MultiAgentRLModule\<close>, the iteration of the loop for
  that column raises \<open>NotImplementedError\<close>; so the call raises \<open>NotImplementedError\<close>
  when it reaches that column, it raises what an earlier column raised otherwise, and it
  never returns.
\<close>

theorem multi_agent_column_not_mapped:
  assumes "data = before @ (column, column_data) # after"
    and "distinct (map fst data)"
    and "\<not> in_marl_module rl_module column"
    and "\<forall>xs. column_data \<noteq> (Items xs)"
  shows "(\<forall>st. map_of (fst st) column = Some column_data \<longrightarrow>
            process_column lib rl_module True column st = Inl NotImplementedError)
       \<and> call lib rl_module (Some data) (MultiAgentEpisode # rest) shared_data
           = (case process_columns lib rl_module True (map fst before) (data, shared_data) of
                Inl e \<Rightarrow> Inl e
              | Inr st \<Rightarrow> Inl NotImplementedError)
       \<and> (\<forall>result. call lib rl_module (Some data) (MultiAgentEpisode # rest) shared_data
             \<noteq> Inr result)"
proof -
  note step = process_column_not_implemented [OF _ assms(3,4)]
  have cols: "map fst data = map fst before @ column # map fst after"
    using assms(1) by simp
  have notin: "column \<notin> set (map fst before)"
    using assms(2) [unfolded cols] by simp
  have at: "map_of data column = Some column_data"
    using assms(2) unfolding assms(1) by (rule map_of_middle)
  have eq: "call lib rl_module (Some data) (MultiAgentEpisode # rest) shared_data
           = (case process_columns lib rl_module True (map fst before) (data, shared_data) of
                Inl e \<Rightarrow> Inl e
              | Inr st \<Rightarrow> Inl NotImplementedError)"
  proof (cases "process_columns lib rl_module True (map fst before) (data, shared_data)")
    case (Inl e)
    then show ?thesis
      by (simp add: call_def cols process_columns_append)
  next
    case (Inr st1)
    have "column \<noteq> DEFAULT_POLICY_ID \<or> \<not> is_marl_module rl_module \<or> True" by simp
    from process_columns_other [OF Inr notin this] at
    have at1: "map_of (fst st1) column = Some column_data" by simp
    with Inr step [OF at1] show ?thesis
      by (simp add: call_def cols process_columns_append)
  qed
  moreover from eq have "\<forall>result.
      call lib rl_module (Some data) (MultiAgentEpisode # rest) shared_data \<noteq> Inr result"
    by (simp split: sum.splits)
  moreover have "\<forall>st. map_of (fst st) column = Some column_data \<longrightarrow>
      process_column lib rl_module True column st = Inl NotImplementedError"
    by (intro allI impI) (rule step)
  ultimately show ?thesis by (intro conjI)
qed

theorem multi_agent_column_not_mapped_witness:
  "call example_lib (MultiAgentRLModule [''m1''])
       (Some [(''m1'', Dict [(KStr ''obs'', Items [1, 2])]),
              (''obs'', eps_dict [(''e1'', [3])]),
              (''rewards'', (Items [4]))])
       [MultiAgentEpisode] (None :: unit shared_data)
     = Inl NotImplementedError"
proof -
  let ?before = "[(''m1'', Dict [(KStr ''obs'', Items [1, 2])])] :: (nat, nat list) data"
  let ?after = "[(''rewards'', (Items [4]))] :: (nat, nat list) data"
  let ?data = "?before @ (''obs'', eps_dict [(''e1'', [3])]) # ?after"
  have pre: "process_columns example_lib (MultiAgentRLModule [''m1'']) True (map fst ?before)
      (?data, None :: unit shared_data)
    = Inr ([(''m1'', Dict [(KStr ''obs'', Batched [1, 2])]),
            (''obs'', eps_dict [(''e1'', [3])]), (''rewards'', (Items [4]))], None)"
    by (simp add: call_simps)
  have "distinct (map fst ?data)" by simp
  from multi_agent_column_not_mapped [OF refl this,
      where rl_module = "MultiAgentRLModule [''m1'']" and lib = example_lib and rest = "[]"
        and shared_data = "None :: unit shared_data", THEN conjunct2, THEN conjunct1] pre
  show ?thesis by (simp add: eps_dict_def)
qed

end
